theory Spec2Isabelle
  imports Main
begin

section \<open>The day table\<close>

text \<open>
  The tracker keeps one pandas DataFrame with the columns \<open>date\<close> and \<open>count\<close>. Its index
  is always the range \<open>0 .. n - 1\<close> (\<open>read_csv\<close> builds it so, and \<open>concat\<close> is called with
  \<open>ignore_index=True\<close>), so a frame is the list of its rows in stored order and a row label
  is a position. Dates are the strings of \<open>datetime.date.isoformat\<close>. The column \<open>count\<close> is
  of pandas' type \<open>int64\<close>, as \<open>read_csv\<close> builds it: a count is an integer of 64 bits, and
  the arithmetic the tracker does on counts wraps around. A count is modelled as an \<open>int\<close>
  in the range \<open>int64\<close>, and the wrap-around is written out by \<open>wrap64\<close> at the two places
  where a result can leave the range: the \<open>+= 1\<close> of \<open>add_outreach\<close> and the \<open>sum()\<close> of
  \<open>compute_weekly_count\<close>. (The \<open>-= 1\<close> of \<open>remove_outreach\<close> runs on a positive count only.)
\<close>

record row =
  date :: string
  count :: int

type_synonym table = "row list"

definition int64 :: "int \<Rightarrow> bool" where
  "int64 v = (- (2 ^ 63) \<le> v \<and> v < 2 ^ 63)"

definition wrap64 :: "int \<Rightarrow> int" where
  "wrap64 v = (v + 2 ^ 63) mod 2 ^ 64 - 2 ^ 63"

section \<open>Aggregates\<close>

text \<open>
  The streak loop of \<open>main\<close>:
  \<^verbatim>\<open>
    consecutive_streak = 0
    for _, day_row in df.iloc[::-1].iterrows():
        if day_row["count"] >= 10:
            consecutive_streak += 1
        else:
            break
  \<close>
  \<open>streak_loop\<close> is the loop over the rows still to visit, with the counter as accumulator;
  \<open>df.iloc[::-1]\<close> is the frame reversed.
\<close>

fun streak_loop :: "row list \<Rightarrow> int \<Rightarrow> int" where
  "streak_loop [] consecutive_streak = consecutive_streak"
| "streak_loop (day_row # rest) consecutive_streak =
     (if count day_row \<ge> 10 then streak_loop rest (consecutive_streak + 1)
      else consecutive_streak)"

definition current_streak :: "table \<Rightarrow> int" where
  "current_streak df = streak_loop (rev df) 0"

text \<open>
  Python's slice \<open>xs[start:]\<close>: a negative start counts from the end, and both ends are
  clipped to the list. pandas' \<open>DataFrame.tail(n)\<close> is \<open>iloc[0:0]\<close> for \<open>n = 0\<close> and
  \<open>iloc[-n:]\<close> otherwise.
\<close>

definition py_slice_from :: "int \<Rightarrow> 'a list \<Rightarrow> 'a list" where
  "py_slice_from start xs =
     (let n = int (length xs);
          s = (if start < 0 then max 0 (n + start) else min start n)
      in drop (nat s) xs)"

definition tail :: "int \<Rightarrow> 'a list \<Rightarrow> 'a list" where
  "tail n xs = (if n = 0 then [] else py_slice_from (- n) xs)"

text \<open>
  \<^verbatim>\<open>def compute_weekly_count(df): return df.tail(7)["count"].sum()\<close>
  The sum of an \<open>int64\<close> column is computed in 64 bits: it is the sum of the counts wrapped
  into the range.
\<close>

definition compute_weekly_count :: "table \<Rightarrow> int" where
  "compute_weekly_count df = wrap64 (sum_list (map count (tail 7 df)))"

text \<open>
  The window as the specification words it: the last \<open>min 7 (length T)\<close> rows, in stored
  order.
\<close>

definition last_rows :: "nat \<Rightarrow> 'a list \<Rightarrow> 'a list" where
  "last_rows k xs = rev (take (min k (length xs)) (rev xs))"

section \<open>Errors, the session and the data file\<close>

text \<open>
  Every exception the modelled code can raise is a value: a function that can raise returns
  \<open>Inl\<close> of the exception or \<open>Inr\<close> of its result, and nothing is said about the state a
  raise leaves behind. \<open>Unmodelled\<close> is not a Python
  exception: \<open>read_csv\<close> below returns it for file contents outside the part of pandas' CSV
  dialect that this development describes, and nothing is claimed about them.
\<close>

datatype py_error =
  KeyError | IndexError | FileNotFoundError | EmptyDataError | IllegalMonthError | Unmodelled

datatype notice = Balloons | Warning string

text \<open>
  The state the callbacks work on: the three keys of \<open>st.session_state\<close> (absent keys are
  \<open>None\<close>), the content of \<open>streak_data.csv\<close> (\<open>None\<close> when the file does not exist), and the
  notices handed to the page, oldest first.
\<close>

record state =
  ss_data :: "table option"
  ss_today :: "string option"
  ss_count :: "int option"
  data_file :: "string option"
  shown :: "notice list"

subsection \<open>Decimal numbers\<close>

text \<open>Python's \<open>str\<close> of an integer, and the format \<open>{:02d}\<close>.\<close>

definition digit_char :: "nat \<Rightarrow> char" where
  "digit_char d = ''0123456789'' ! d"

fun digits_of :: "nat \<Rightarrow> string" where
  "digits_of n = (if n < 10 then [digit_char n] else digits_of (n div 10) @ [digit_char (n mod 10)])"

declare digits_of.simps [simp del]

definition str_int :: "int \<Rightarrow> string" where
  "str_int i = (if i < 0 then CHR ''-'' # digits_of (nat (- i)) else digits_of (nat i))"

definition fmt_02d :: "int \<Rightarrow> string" where
  "fmt_02d i = (if 0 \<le> i \<and> i < 10 then CHR ''0'' # str_int i else str_int i)"

definition is_digit :: "char \<Rightarrow> bool" where
  "is_digit c = (c \<in> set ''0123456789'')"

definition digit_val :: "char \<Rightarrow> nat" where
  "digit_val c = of_char c - 48"

definition nat_of_digits :: "string \<Rightarrow> nat" where
  "nat_of_digits ds = foldl (\<lambda>a c. 10 * a + digit_val c) 0 ds"

definition parse_int :: "string \<Rightarrow> int option" where
  "parse_int s =
     (case s of
        [] \<Rightarrow> None
      | c # ds \<Rightarrow>
          if c = CHR ''-'' then
            (if ds \<noteq> [] \<and> list_all is_digit ds then Some (- int (nat_of_digits ds)) else None)
          else if list_all is_digit s then Some (int (nat_of_digits s)) else None)"

subsection \<open>The CSV file\<close>

text \<open>
  \<open>df.to_csv(DATA_FILE, index=False)\<close> and \<open>pd.read_csv(DATA_FILE)\<close> are pandas, not code of
  the tracker. They are modelled on the files the tracker writes: a header line
  \<open>date,count\<close>, then one line \<open>date,count\<close> per row, each ended by a line feed (the
  line separator of POSIX systems), no field quoted. \<open>to_csv\<close> writes that text (a date that would need quoting does not occur: dates
  come from \<open>isoformat\<close> or from such a file). \<open>read_csv\<close> reads it back: a missing file is
  \<open>FileNotFoundError\<close>, a file of no bytes is \<open>EmptyDataError\<close>; a date field must have the
  shape \<open>dddd-dd-dd\<close>, which pandas keeps as a string, and a count field must be a decimal
  integer of 64 bits, which pandas reads as an integer. Any other content is \<open>Unmodelled\<close>.
\<close>

definition csv_line :: "row \<Rightarrow> string" where
  "csv_line r = date r @ '','' @ str_int (count r) @ [CHR 0x0A]"

definition to_csv :: "table \<Rightarrow> string" where
  "to_csv df = ''date,count'' @ [CHR 0x0A] @ concat (map csv_line df)"

fun split_on :: "'a \<Rightarrow> 'a list \<Rightarrow> 'a list list" where
  "split_on sep [] = [[]]"
| "split_on sep (x # xs) =
     (if x = sep then [] # split_on sep xs
      else (case split_on sep xs of [] \<Rightarrow> [[x]] | w # ws \<Rightarrow> (x # w) # ws))"

definition csv_lines :: "string \<Rightarrow> string list" where
  "csv_lines txt =
     (let segs = split_on (CHR 0x0A) txt in if last segs = [] then butlast segs else segs)"

definition iso_shaped :: "string \<Rightarrow> bool" where
  "iso_shaped d =
     (case d of
        [y1, y2, y3, y4, s1, m1, m2, s2, d1, d2] \<Rightarrow>
          list_all is_digit [y1, y2, y3, y4, m1, m2, d1, d2] \<and> s1 = CHR ''-'' \<and> s2 = CHR ''-''
      | _ \<Rightarrow> False)"

definition parse_row :: "string \<Rightarrow> py_error + row" where
  "parse_row line =
     (case split_on CHR '','' line of
        [d, c] \<Rightarrow>
          (if iso_shaped d then
             (case parse_int c of
                Some v \<Rightarrow> if int64 v then Inr \<lparr>date = d, count = v\<rparr> else Inl Unmodelled
              | None \<Rightarrow> Inl Unmodelled)
           else Inl Unmodelled)
      | _ \<Rightarrow> Inl Unmodelled)"

fun parse_rows :: "string list \<Rightarrow> py_error + table" where
  "parse_rows [] = Inr []"
| "parse_rows (l # ls) =
     (case parse_row l of
        Inl e \<Rightarrow> Inl e
      | Inr r \<Rightarrow> (case parse_rows ls of Inl e \<Rightarrow> Inl e | Inr rs \<Rightarrow> Inr (r # rs)))"

definition read_csv :: "string option \<Rightarrow> py_error + table" where
  "read_csv file =
     (case file of
        None \<Rightarrow> Inl FileNotFoundError
      | Some txt \<Rightarrow>
          if txt = [] then Inl EmptyDataError
          else (case csv_lines txt of
                  [] \<Rightarrow> Inl Unmodelled
                | header # ls \<Rightarrow>
                    if header = ''date,count'' then parse_rows ls else Inl Unmodelled))"

text \<open>
  \<^verbatim>\<open>
  def load_data():
      try:
          return pd.read_csv(DATA_FILE)
      except (pd.errors.EmptyDataError, FileNotFoundError):
          return pd.DataFrame(columns=["date", "count"])

  def save_data(df):
      df.to_csv(DATA_FILE, index=False)
  \<close>
  The empty frame with the two columns is the empty list of rows.
\<close>

definition load_data :: "string option \<Rightarrow> py_error + table" where
  "load_data file =
     (case read_csv file of
        Inr df \<Rightarrow> Inr df
      | Inl e \<Rightarrow> if e = EmptyDataError \<or> e = FileNotFoundError then Inr [] else Inl e)"

definition save_data :: "table \<Rightarrow> state \<Rightarrow> state" where
  "save_data df s = s\<lparr>data_file := Some (to_csv df)\<rparr>"

section \<open>The record store\<close>

text \<open>
  The middle of \<open>init_data\<close>, with the clock's \<open>datetime.date.today().isoformat()\<close> as the
  argument \<open>today_str\<close>:
  \<^verbatim>\<open>
    if today_str not in st.session_state["data"]["date"].values:
        new_row = {"date": today_str, "count": 0}
        st.session_state["data"] = pd.concat(
            [st.session_state["data"], pd.DataFrame([new_row])], ignore_index=True)
  \<close>
\<close>

definition ensure_today :: "table \<Rightarrow> string \<Rightarrow> table" where
  "ensure_today df today_str =
     (if today_str \<notin> set (map date df) then df @ [\<lparr>date = today_str, count = 0\<rparr>] else df)"

text \<open>
  \<open>init_data\<close> as a whole. The frame is loaded only when the session has none
  (\<open>session_frame\<close>); the keys
  \<open>today\<close> and \<open>count\<close> are set only when absent. \<open>df.index[df["date"] == today][0]\<close> is the
  first row of that date, and raises \<open>IndexError\<close> when there is none.
\<close>

definition session_frame :: "state \<Rightarrow> py_error + table" where
  "session_frame s = (case ss_data s of None \<Rightarrow> load_data (data_file s) | Some df \<Rightarrow> Inr df)"

definition init_data :: "string \<Rightarrow> state \<Rightarrow> py_error + state" where
  "init_data today_str s =
     (case session_frame s of
        Inl e \<Rightarrow> Inl e
      | Inr df0 \<Rightarrow>
          (let df = ensure_today df0 today_str;
               today = (case ss_today s of None \<Rightarrow> today_str | Some t \<Rightarrow> t);
               s1 = s\<lparr>ss_data := Some df, ss_today := Some today\<rparr>
           in (case ss_count s of
                 Some c \<Rightarrow> Inr s1
               | None \<Rightarrow>
                   (case find (\<lambda>r. date r = today) df of
                      None \<Rightarrow> Inl IndexError
                    | Some r \<Rightarrow> Inr (s1\<lparr>ss_count := Some (count r)\<rparr>)))))"

text \<open>
  \<^verbatim>\<open>
  def add_outreach(row_idx: int):
      df = st.session_state["data"]
      df.at[row_idx, "count"] += 1
      if df.at[row_idx, "date"] == st.session_state["today"]:
          st.session_state["count"] = df.at[row_idx, "count"]
          if st.session_state["count"] == 10:
              st.balloons()
      save_data(df)
  \<close>
  \<open>df\<close> is the frame of the session itself, so the update in place is an update of
  \<open>ss_data\<close>. A missing session key and a label that is not in the index raise \<open>KeyError\<close>.
  The cell is an \<open>int64\<close>, so \<open>+= 1\<close> on the largest count wraps to the smallest.
\<close>

definition valid_index :: "table \<Rightarrow> int \<Rightarrow> bool" where
  "valid_index df row_idx = (0 \<le> row_idx \<and> row_idx < int (length df))"

definition set_count :: "table \<Rightarrow> int \<Rightarrow> int \<Rightarrow> table" where
  "set_count df row_idx v = df[nat row_idx := (df ! nat row_idx)\<lparr>count := v\<rparr>]"

definition add_outreach :: "int \<Rightarrow> state \<Rightarrow> py_error + state" where
  "add_outreach row_idx s =
     (case ss_data s of
        None \<Rightarrow> Inl KeyError
      | Some df \<Rightarrow>
          if \<not> valid_index df row_idx then Inl KeyError
          else
            (let df' = set_count df row_idx (wrap64 (count (df ! nat row_idx) + 1));
                 s1 = s\<lparr>ss_data := Some df'\<rparr>
             in (case ss_today s1 of
                   None \<Rightarrow> Inl KeyError
                 | Some today \<Rightarrow>
                     (let s2 =
                        (if date (df' ! nat row_idx) = today then
                           (let s' = s1\<lparr>ss_count := Some (count (df' ! nat row_idx))\<rparr>
                            in if ss_count s' = Some 10 then s'\<lparr>shown := shown s' @ [Balloons]\<rparr>
                               else s')
                         else s1)
                      in Inr (save_data df' s2)))))"

text \<open>
  \<^verbatim>\<open>
  def remove_outreach(row_idx: int):
      df = st.session_state["data"]
      if df.at[row_idx, "count"] > 0:
          df.at[row_idx, "count"] -= 1
          if df.at[row_idx, "date"] == st.session_state["today"]:
              st.session_state["count"] = df.at[row_idx, "count"]
          save_data(df)
      else:
          st.warning("Count is already 0. Can't remove more.")
  \<close>
\<close>

definition remove_outreach :: "int \<Rightarrow> state \<Rightarrow> py_error + state" where
  "remove_outreach row_idx s =
     (case ss_data s of
        None \<Rightarrow> Inl KeyError
      | Some df \<Rightarrow>
          if \<not> valid_index df row_idx then Inl KeyError
          else if count (df ! nat row_idx) > 0 then
            (let df' = set_count df row_idx (count (df ! nat row_idx) - 1);
                 s1 = s\<lparr>ss_data := Some df'\<rparr>
             in (case ss_today s1 of
                   None \<Rightarrow> Inl KeyError
                 | Some today \<Rightarrow>
                     (let s2 =
                        (if date (df' ! nat row_idx) = today
                         then s1\<lparr>ss_count := Some (count (df' ! nat row_idx))\<rparr>
                         else s1)
                      in Inr (save_data df' s2))))
          else Inr (s\<lparr>shown := shown s @ [Warning ''Count is already 0. Can't remove more.'']\<rparr>))"

text \<open>
  The invariant of the table that the specification states: no count is negative, and no
  date has two rows.
\<close>

definition table_inv :: "table \<Rightarrow> bool" where
  "table_inv df = (list_all (\<lambda>r. 0 \<le> count r) df \<and> distinct (map date df))"

text \<open>
  The tables that the round trip through the file is stated for: every date has the shape
  of \<open>isoformat\<close>, every count is an integer of 64 bits. \<open>csv_fields\<close> is a row's line
  without its line feed, and \<open>plain\<close> says that a field holds neither separator.
\<close>

definition well_formed :: "table \<Rightarrow> bool" where
  "well_formed df = list_all (\<lambda>r. iso_shaped (date r) \<and> int64 (count r)) df"

definition csv_fields :: "row \<Rightarrow> string" where
  "csv_fields r = date r @ CHR '','' # str_int (count r)"

definition plain :: "string \<Rightarrow> bool" where
  "plain s = (CHR '','' \<notin> set s \<and> CHR 0x0A \<notin> set s)"

section \<open>The month calendar\<close>

subsection \<open>Python's \<open>calendar.monthcalendar\<close>\<close>

text \<open>
  The standard library's \<open>calendar\<close> and \<open>datetime\<close>, as far as \<open>monthcalendar\<close> uses them.
  \<open>datetime.date.weekday\<close> is \<open>(toordinal() + 6) % 7\<close>, Monday being 0, and the ordinal of a
  date is the number of days since 31 December of the year 0 in the proleptic Gregorian
  calendar. \<open>calendar.weekday\<close> maps a year outside \<open>1 .. 9999\<close> to \<open>2000 + year % 400\<close>
  first. \<open>monthrange\<close> raises \<open>IllegalMonthError\<close> for a month outside \<open>1 .. 12\<close>.
  \<open>itermonthdays\<close> yields 0 for the days of the first and last week that lie outside the
  month, and \<open>monthdayscalendar\<close> cuts the days into weeks of seven (\<open>weeks_of\<close>). The first
  weekday is the module's default, Monday.
\<close>

definition isleap :: "int \<Rightarrow> bool" where
  "isleap year = (year mod 4 = 0 \<and> (year mod 100 \<noteq> 0 \<or> year mod 400 = 0))"

definition mdays :: "int list" where
  "mdays = [0, 31, 28, 31, 30, 31, 30, 31, 31, 30, 31, 30, 31]"

definition DAYS_BEFORE_MONTH :: "int list" where
  "DAYS_BEFORE_MONTH = [- 1, 0, 31, 59, 90, 120, 151, 181, 212, 243, 273, 304, 334]"

definition days_before_year :: "int \<Rightarrow> int" where
  "days_before_year year = (let y = year - 1 in y * 365 + y div 4 - y div 100 + y div 400)"

definition days_before_month :: "int \<Rightarrow> int \<Rightarrow> int" where
  "days_before_month year month =
     DAYS_BEFORE_MONTH ! nat month + (if month > 2 \<and> isleap year then 1 else 0)"

definition ymd2ord :: "int \<Rightarrow> int \<Rightarrow> int \<Rightarrow> int" where
  "ymd2ord year month day = days_before_year year + days_before_month year month + day"

definition date_weekday :: "int \<Rightarrow> int \<Rightarrow> int \<Rightarrow> int" where
  "date_weekday year month day = (ymd2ord year month day + 6) mod 7"

definition weekday :: "int \<Rightarrow> int \<Rightarrow> int \<Rightarrow> int" where
  "weekday year month day =
     date_weekday (if \<not> (1 \<le> year \<and> year \<le> 9999) then 2000 + year mod 400 else year) month day"

definition monthrange :: "int \<Rightarrow> int \<Rightarrow> py_error + int \<times> int" where
  "monthrange year month =
     (if \<not> (1 \<le> month \<and> month \<le> 12) then Inl IllegalMonthError
      else Inr (weekday year month 1,
                mdays ! nat month + (if month = 2 \<and> isleap year then 1 else 0)))"

definition firstweekday :: int where
  "firstweekday = 0"

definition itermonthdays :: "int \<Rightarrow> int \<Rightarrow> py_error + int list" where
  "itermonthdays year month =
     (case monthrange year month of
        Inl e \<Rightarrow> Inl e
      | Inr (day1, ndays) \<Rightarrow>
          (let days_before = (day1 - firstweekday) mod 7;
               days_after = (firstweekday - day1 - ndays) mod 7
           in Inr (replicate (nat days_before) 0 @ [1..ndays] @ replicate (nat days_after) 0)))"

fun weeks_of :: "'a list \<Rightarrow> 'a list list" where
  "weeks_of [] = []"
| "weeks_of (x # xs) = take 7 (x # xs) # weeks_of (drop 7 (x # xs))"

definition monthcalendar :: "int \<Rightarrow> int \<Rightarrow> py_error + int list list" where
  "monthcalendar year month =
     (case itermonthdays year month of Inl e \<Rightarrow> Inl e | Inr days \<Rightarrow> Inr (weeks_of days))"


subsection \<open>\<open>render_monthly_calendar\<close>\<close>

text \<open>
  The dictionary of counts:
  \<^verbatim>\<open>
    counts = {}
    for _, row in df.iterrows():
        counts[row['date']] = row['count']
  \<close>
\<close>

definition day_lookup :: "table \<Rightarrow> (string \<rightharpoonup> int)" where
  "day_lookup df = fold (\<lambda>r counts. counts(date r \<mapsto> count r)) df Map.empty"

definition date_str :: "int \<Rightarrow> int \<Rightarrow> int \<Rightarrow> string" where
  "date_str year month day = str_int year @ ''-'' @ fmt_02d month @ ''-'' @ fmt_02d day"

text \<open>
  The body of the loop over the days of a week appends one table cell to the page:
  \<^verbatim>\<open>
    if day == 0:
        html += "<td class='empty-day'></td>"
    else:
        date_str = f"{year}-{month:02d}-{day:02d}"
        day_count = counts.get(date_str, 0)
        if day_count >= 10:
            html += (f"<td class='filled-cell'>"
                     f"<span class='day-num'>{day}</span>"
                     f"<span class='checkmark'>(tick)</span>"
                     f"</td>")
        else:
            html += f"<td class='empty-cell'>{day}</td>"
  \<close>
  \<open>day_html\<close> is the text appended. Characters outside ASCII stand as the bytes of their
  UTF-8 encoding, as they are in the source file: the tick is the seven bytes below.
\<close>

definition day_html :: "(string \<rightharpoonup> int) \<Rightarrow> int \<Rightarrow> int \<Rightarrow> int \<Rightarrow> string" where
  "day_html counts year month day =
     (if day = 0 then ''<td class='empty-day'></td>''
      else (let key = date_str year month day;
                day_count = (case counts key of None \<Rightarrow> 0 | Some c \<Rightarrow> c)
            in if day_count \<ge> 10 then
                 ''<td class='filled-cell'>'' @
                 ''<span class='day-num'>'' @ str_int day @ ''</span>'' @
                 ''<span class='checkmark'>'' @
                   [CHR 0xE2, CHR 0x80, CHR 0x9A, CHR 0xC3, CHR 0xBA, CHR 0xC3, CHR 0xAC] @
                 ''</span>'' @
                 ''</td>''
               else ''<td class='empty-cell'>'' @ str_int day @ ''</td>''))"

definition html_head :: string where
  \<open>html_head =
     [CHR 0x0A] @ ''    <div class="calendar-container">'' @
     [CHR 0x0A] @ ''      <h2>'' @
       [CHR 0xEF, CHR 0xA3, CHR 0xBF, CHR 0xC3, CHR 0xBC, CHR 0xC3, CHR 0xAC, CHR 0xC3, CHR 0x96] @
       '' Monthly Calendar</h2>'' @
     [CHR 0x0A] @ ''      <table class="calendar-table">'' @
     [CHR 0x0A] @ ''        <thead>'' @
     [CHR 0x0A] @ ''          <tr>''\<close>

definition day_names :: "string list" where
  "day_names = [''Mon'', ''Tue'', ''Wed'', ''Thu'', ''Fri'', ''Sat'', ''Sun'']"

text \<open>
  The function of the source from \<open>calendar.monthcalendar(year, month)\<close> on, with the year,
  the month and the dictionary as arguments. Each loop of the source is a \<open>foldl\<close> over the
  list it runs through, with the page so far as the accumulator, and each \<open>html += ...\<close> is
  one binding of \<open>html\<close>.
  \<^verbatim>\<open>
    cal = calendar.monthcalendar(year, month)
    html = (head)
    for dn in day_names:
        html += f"<th>{dn}</th>"
    html += "</tr></thead><tbody>"
    for week in cal:
        html += "<tr>"
        for day in week:
            (the cell of the day)
        html += "</tr>"
    html += "</tbody></table>"
    html += "<p style='margin-top: 0.75rem;'>Hit 10+ outreaches to ... checkmark!</p>"
    html += "</div>"
    return html
  \<close>
\<close>

definition week_html :: "(string \<rightharpoonup> int) \<Rightarrow> int \<Rightarrow> int \<Rightarrow> string \<Rightarrow> int list \<Rightarrow> string" where
  "week_html counts year month html week =
     foldl (\<lambda>html day. html @ day_html counts year month day) (html @ ''<tr>'') week @ ''</tr>''"

definition render_month :: "int \<Rightarrow> int \<Rightarrow> (string \<rightharpoonup> int) \<Rightarrow> py_error + string" where
  "render_month year month counts =
     (case monthcalendar year month of
        Inl e \<Rightarrow> Inl e
      | Inr cal \<Rightarrow>
          (let html = html_head;
               html = foldl (\<lambda>html dn. html @ ''<th>'' @ dn @ ''</th>'') html day_names;
               html = html @ ''</tr></thead><tbody>'';
               html = foldl (week_html counts year month) html cal;
               html = html @ ''</tbody></table>'';
               html = html @ ''<p style='margin-top: 0.75rem;'>Hit 10+ outreaches to light up that day with a checkmark!</p>'';
               html = html @ ''</div>''
           in Inr html))"

text \<open>
  \<open>render_monthly_calendar(df)\<close> itself reads the clock: \<open>now = datetime.date.today()\<close>. The
  clock's date is the argument \<open>now\<close>.
\<close>

record clock_date =
  d_year :: int
  d_month :: int
  d_day :: int

definition render_monthly_calendar :: "clock_date \<Rightarrow> table \<Rightarrow> py_error + string" where
  "render_monthly_calendar now df = render_month (d_year now) (d_month now) (day_lookup df)"

text \<open>
  \<open>datetime.date.isoformat\<close>, the format \<open>%04d-%02d-%02d\<close>: the string that \<open>init_data\<close> gets
  as \<open>today_str\<close>. It pads the year to four digits, which the key \<open>date_str\<close> of the
  calendar does not.
\<close>

definition fmt_04d :: "int \<Rightarrow> string" where
  "fmt_04d i =
     (if 0 \<le> i then replicate (4 - length (str_int i)) CHR ''0'' @ str_int i
      else CHR ''-'' # replicate (3 - length (str_int (- i))) CHR ''0'' @ str_int (- i))"

definition isoformat :: "clock_date \<Rightarrow> string" where
  "isoformat d = fmt_04d (d_year d) @ ''-'' @ fmt_02d (d_month d) @ ''-'' @ fmt_02d (d_day d)"

subsection \<open>The grid of the specification\<close>

text \<open>
  The specification speaks of a grid of cells: empty cells, and day cells that are met or
  pending. These definitions are that reading of the page, to be compared with
  \<open>render_month\<close>: a cell is a blank slot (\<open>EmptyDay\<close>), a met day (\<open>FilledCell\<close>) or a pending
  day (\<open>EmptyCell\<close>), named after the style classes of the source; \<open>classify\<close> is the cell
  that the loop body chooses for an entry of the month calendar, \<open>cell_html\<close> the text by
  which a cell stands in the page, and \<open>month_grid\<close> the weeks of cells of a month.
\<close>

datatype cell = EmptyDay | FilledCell int | EmptyCell int





text \<open>A small session used to instantiate the theorems below.\<close>

definition demo_table :: table where
  "demo_table = [\<lparr>date = ''2024-06-01'', count = 0\<rparr>, \<lparr>date = ''2024-06-02'', count = 3\<rparr>]"

definition demo_state :: state where
  "demo_state = \<lparr>ss_data = Some demo_table, ss_today = Some ''2024-06-02'',
     ss_count = Some 3, data_file = None, shown = []\<rparr>"

section \<open>Properties of the aggregates\<close>

lemma streak_loop_takeWhile:
  "streak_loop rs n = n + int (length (takeWhile (\<lambda>r. 10 \<le> count r) rs))"
  by (induction rs arbitrary: n) simp_all

lemma tail_7_last_rows: "tail 7 xs = last_rows 7 xs"
proof -
  have "rev (take (min 7 (length xs)) (rev xs)) = drop (length xs - 7) xs"
    by (simp add: rev_take min_def)
  moreover have "nat (max 0 (int (length xs) + - 7)) = length xs - 7"
    by simp
  ultimately show ?thesis
    by (simp add: tail_def py_slice_from_def last_rows_def Let_def)
qed

text \<open>
  C1. \<open>current_streak\<close> visits the rows from the most recently appended one backwards and
  returns how many rows it passes before the first one whose count is below 10: the length
  of the longest prefix of the reversed table whose counts are all at least 10. On the four
  tables of the specification it returns 0, 0, 2 and 1.
\<close>

theorem current_streak_spec:
  "current_streak T = int (length (takeWhile (\<lambda>r. 10 \<le> count r) (rev T)))
   \<and> current_streak [] = 0
   \<and> current_streak [\<lparr>date = d1, count = 9\<rparr>] = 0
   \<and> current_streak [\<lparr>date = d1, count = 10\<rparr>, \<lparr>date = d2, count = 10\<rparr>] = 2
   \<and> current_streak [\<lparr>date = d1, count = 10\<rparr>, \<lparr>date = d2, count = 5\<rparr>,
                       \<lparr>date = d3, count = 10\<rparr>] = 1"
  by (simp add: current_streak_def streak_loop_takeWhile)

text \<open>
  The two places where a count is computed stay in the range when their exact result is in
  it.
\<close>

lemma wrap64_int64: "int64 (wrap64 v)"
  by (simp add: wrap64_def int64_def)

lemma wrap64_id: "int64 v \<Longrightarrow> wrap64 v = v"
  by (simp add: wrap64_def int64_def)

lemma wrap64_congruent: "(wrap64 v - v) mod 2 ^ 64 = 0"
proof -
  have "wrap64 v - v = (v + 2 ^ 63) mod 2 ^ 64 - (v + 2 ^ 63)"
    by (simp add: wrap64_def)
  also have "\<dots> mod 2 ^ 64 = ((v + 2 ^ 63) - (v + 2 ^ 63)) mod 2 ^ 64"
    by (rule mod_diff_left_eq)
  finally show ?thesis
    by simp
qed

lemma congruent_int64_unique:
  assumes "int64 a" and "int64 b" and "(a - b) mod 2 ^ 64 = 0"
  shows "a = b"
proof (rule ccontr)
  assume "a \<noteq> b"
  then have apart: "0 < a - b \<or> 0 < b - a"
    by linarith
  from assms(3) have d: "(2::int) ^ 64 dvd a - b"
    by (simp only: mod_eq_0_iff_dvd)
  then have "(2::int) ^ 64 dvd - (a - b)"
    by (simp only: dvd_minus_iff)
  then have d': "(2::int) ^ 64 dvd b - a"
    by simp
  from assms(1,2) have near: "a - b < 2 ^ 64" "b - a < 2 ^ 64"
    by (simp_all add: int64_def)
  from apart show False
  proof
    assume "0 < a - b"
    from zdvd_not_zless [OF this near(1)] d show False ..
  next
    assume "0 < b - a"
    from zdvd_not_zless [OF this near(2)] d' show False ..
  qed
qed

text \<open>
  C2. \<open>compute_weekly_count\<close> takes the last \<open>min 7 (length T)\<close> rows in stored order,
  whatever their dates: the window \<open>tail 7\<close> is exactly those rows. Its value is the sum of
  their counts computed in 64 bits: the one integer in the range of \<open>int64\<close> that differs
  from the sum by a multiple of \<open>2^64\<close>, hence the sum itself whenever the sum is in that
  range. A table of fewer than seven rows is summed whole.
\<close>

theorem compute_weekly_count_spec:
  "tail 7 T = last_rows 7 T
   \<and> length (tail 7 T) = min 7 (length T)
   \<and> - (2 ^ 63) \<le> compute_weekly_count T \<and> compute_weekly_count T < 2 ^ 63
   \<and> (compute_weekly_count T - sum_list (map count (last_rows 7 T))) mod 2 ^ 64 = 0
   \<and> (int64 (sum_list (map count (last_rows 7 T))) \<longrightarrow>
         compute_weekly_count T = sum_list (map count (last_rows 7 T)))
   \<and> (length T < 7 \<and> int64 (sum_list (map count T)) \<longrightarrow>
         compute_weekly_count T = sum_list (map count T))"
proof -
  have w: "tail 7 T = last_rows 7 T"
    by (rule tail_7_last_rows)
  have l: "length (last_rows 7 T) = min 7 (length T)"
    by (simp add: last_rows_def)
  have s: "length T < 7 \<longrightarrow> last_rows 7 T = T"
    by (simp add: last_rows_def min_def)
  have v: "compute_weekly_count T = wrap64 (sum_list (map count (last_rows 7 T)))"
    by (simp add: compute_weekly_count_def w)
  have r: "- (2 ^ 63) \<le> compute_weekly_count T \<and> compute_weekly_count T < 2 ^ 63"
    using wrap64_int64 [of "sum_list (map count (last_rows 7 T))"] by (simp add: v int64_def)
  have c: "(compute_weekly_count T - sum_list (map count (last_rows 7 T))) mod 2 ^ 64 = 0"
    unfolding v by (rule wrap64_congruent)
  have e: "int64 (sum_list (map count (last_rows 7 T))) \<longrightarrow>
      compute_weekly_count T = sum_list (map count (last_rows 7 T))"
    by (simp add: v wrap64_id)
  have f: "length T < 7 \<and> int64 (sum_list (map count T)) \<longrightarrow>
      compute_weekly_count T = sum_list (map count T)"
    using s by (auto simp: v wrap64_id)
  have l': "length (tail 7 T) = min 7 (length T)"
    using l by (simp add: w)
  from w l' r c e f show ?thesis
    by (intro conjI) simp_all
qed

theorem compute_weekly_count_spec_witness:
  "compute_weekly_count
     [\<lparr>date = ''2024-06-01'', count = 3\<rparr>, \<lparr>date = ''2024-06-03'', count = 12\<rparr>] = 15
   \<and> compute_weekly_count
     [\<lparr>date = ''2024-05-01'', count = 100\<rparr>, \<lparr>date = ''2024-06-01'', count = 1\<rparr>,
      \<lparr>date = ''2024-06-02'', count = 2\<rparr>, \<lparr>date = ''2024-06-03'', count = 3\<rparr>,
      \<lparr>date = ''2024-06-04'', count = 4\<rparr>, \<lparr>date = ''2024-06-05'', count = 5\<rparr>,
      \<lparr>date = ''2024-06-06'', count = 6\<rparr>, \<lparr>date = ''2024-06-07'', count = 7\<rparr>] = 28"
proof -
  have a: "compute_weekly_count
     [\<lparr>date = ''2024-06-01'', count = 3\<rparr>, \<lparr>date = ''2024-06-03'', count = 12\<rparr>] = 15"
    using compute_weekly_count_spec
      [of "[\<lparr>date = ''2024-06-01'', count = 3\<rparr>, \<lparr>date = ''2024-06-03'', count = 12\<rparr>]"]
    by (simp add: int64_def)
  have b: "compute_weekly_count
     [\<lparr>date = ''2024-05-01'', count = 100\<rparr>, \<lparr>date = ''2024-06-01'', count = 1\<rparr>,
      \<lparr>date = ''2024-06-02'', count = 2\<rparr>, \<lparr>date = ''2024-06-03'', count = 3\<rparr>,
      \<lparr>date = ''2024-06-04'', count = 4\<rparr>, \<lparr>date = ''2024-06-05'', count = 5\<rparr>,
      \<lparr>date = ''2024-06-06'', count = 6\<rparr>, \<lparr>date = ''2024-06-07'', count = 7\<rparr>] = 28"
    using compute_weekly_count_spec
      [of "[\<lparr>date = ''2024-05-01'', count = 100\<rparr>, \<lparr>date = ''2024-06-01'', count = 1\<rparr>,
      \<lparr>date = ''2024-06-02'', count = 2\<rparr>, \<lparr>date = ''2024-06-03'', count = 3\<rparr>,
      \<lparr>date = ''2024-06-04'', count = 4\<rparr>, \<lparr>date = ''2024-06-05'', count = 5\<rparr>,
      \<lparr>date = ''2024-06-06'', count = 6\<rparr>, \<lparr>date = ''2024-06-07'', count = 7\<rparr>]"]
    by (simp add: int64_def last_rows_def)
  from a b show ?thesis by simp
qed

text \<open>
  Where the sum leaves the range the value is not the sum: two rows with the counts
  \<open>2^63 - 1\<close> and 1 have the sum \<open>2^63\<close>, and \<open>compute_weekly_count\<close> returns \<open>- 2^63\<close>.
\<close>

theorem compute_weekly_count_overflow:
  "sum_list (map count (last_rows 7
      [\<lparr>date = ''2024-06-01'', count = 9223372036854775807\<rparr>,
       \<lparr>date = ''2024-06-02'', count = 1\<rparr>])) = 9223372036854775808
   \<and> compute_weekly_count
      [\<lparr>date = ''2024-06-01'', count = 9223372036854775807\<rparr>,
       \<lparr>date = ''2024-06-02'', count = 1\<rparr>] = - 9223372036854775808
   \<and> compute_weekly_count
      [\<lparr>date = ''2024-06-01'', count = 9223372036854775807\<rparr>,
       \<lparr>date = ''2024-06-02'', count = 1\<rparr>]
     \<noteq> sum_list (map count (last_rows 7
      [\<lparr>date = ''2024-06-01'', count = 9223372036854775807\<rparr>,
       \<lparr>date = ''2024-06-02'', count = 1\<rparr>]))"
  by (simp add: compute_weekly_count_def tail_def py_slice_from_def last_rows_def wrap64_def)

section \<open>Properties of the record store\<close>

subsection \<open>Updating one count\<close>

lemma update_count_dates: "map date (df[k := (df ! k)\<lparr>count := v\<rparr>]) = map date df"
  by (induction df arbitrary: k) (simp_all split: nat.split)

lemma set_count_length: "length (set_count df i v) = length df"
  by (simp add: set_count_def)

lemma set_count_dates: "map date (set_count df i v) = map date df"
  by (simp add: set_count_def update_count_dates)

lemma set_count_same:
  "valid_index df i \<Longrightarrow> set_count df i v ! nat i = (df ! nat i)\<lparr>count := v\<rparr>"
  by (simp add: set_count_def valid_index_def nat_less_iff)

lemma set_count_other: "j \<noteq> nat i \<Longrightarrow> set_count df i v ! j = df ! j"
  by (simp add: set_count_def)

lemma set_count_inv:
  assumes "table_inv df" and "0 \<le> v"
  shows "table_inv (set_count df i v)"
proof -
  have "set (df[nat i := (df ! nat i)\<lparr>count := v\<rparr>]) \<subseteq> insert ((df ! nat i)\<lparr>count := v\<rparr>) (set df)"
    by (rule set_update_subset_insert)
  with assms show ?thesis
    by (auto simp: table_inv_def list_all_iff set_count_dates simp flip: set_count_def)
qed

subsection \<open>What the callbacks return\<close>

lemma add_outreach_valid:
  assumes "ss_data s = Some df" and "ss_today s = Some t" and "valid_index df i"
  shows "\<exists>s'. add_outreach i s = Inr s'
     \<and> ss_data s' = Some (set_count df i (wrap64 (count (df ! nat i) + 1)))
     \<and> data_file s' = Some (to_csv (set_count df i (wrap64 (count (df ! nat i) + 1))))
     \<and> ss_today s' = Some t"
  using assms by (simp add: add_outreach_def save_data_def Let_def)

lemma remove_outreach_positive:
  assumes "ss_data s = Some df" and "ss_today s = Some t" and "valid_index df i"
    and "0 < count (df ! nat i)"
  shows "\<exists>s'. remove_outreach i s = Inr s'
     \<and> ss_data s' = Some (set_count df i (count (df ! nat i) - 1))
     \<and> data_file s' = Some (to_csv (set_count df i (count (df ! nat i) - 1)))
     \<and> ss_today s' = Some t \<and> shown s' = shown s"
  using assms by (simp add: remove_outreach_def save_data_def Let_def)

lemma remove_outreach_nothing:
  assumes "ss_data s = Some df" and "valid_index df i" and "count (df ! nat i) \<le> 0"
  shows "remove_outreach i s =
     Inr (s\<lparr>shown := shown s @ [Warning ''Count is already 0. Can't remove more.'']\<rparr>)"
  using assms by (simp add: remove_outreach_def)

lemma callbacks_raise_on_bad_index:
  assumes "ss_data s = Some df" and "\<not> valid_index df i"
  shows "add_outreach i s = Inl KeyError" and "remove_outreach i s = Inl KeyError"
  using assms by (simp_all add: add_outreach_def remove_outreach_def)

subsection \<open>Today's row\<close>

lemma ensure_today_inv: "table_inv T \<Longrightarrow> table_inv (ensure_today T d)"
  by (simp add: table_inv_def ensure_today_def)

lemma ensure_today_has_row: "d \<in> set (map date (ensure_today T d))"
  by (simp add: ensure_today_def)

lemma init_data_result:
  assumes "init_data d s = Inr s'"
  shows "\<exists>df0. session_frame s = Inr df0
      \<and> ss_data s' = Some (ensure_today df0 d) \<and> ss_today s' \<noteq> None \<and> ss_count s' \<noteq> None"
  using assms
  by (auto simp: init_data_def Let_def split: sum.splits option.splits)

text \<open>
  The first run of a session: no key is set and there is no file. \<open>init_data\<close> returns, with
  today's row as the only row.
\<close>

lemma init_data_first_run:
  "init_data d \<lparr>ss_data = None, ss_today = None, ss_count = None, data_file = None, shown = []\<rparr>
     = Inr \<lparr>ss_data = Some [\<lparr>date = d, count = 0\<rparr>], ss_today = Some d, ss_count = Some 0,
            data_file = None, shown = []\<rparr>"
  by (simp add: init_data_def session_frame_def load_data_def read_csv_def ensure_today_def)

text \<open>
  C3. When no row of \<open>T\<close> has the date \<open>d\<close>, \<open>ensure_today T d\<close> is \<open>T\<close> with the one row
  \<open>{date: d, count: 0}\<close> appended, every row of \<open>T\<close> kept in place; running it again with the
  same date on the result changes nothing.
\<close>

theorem ensure_today_appends_once:
  "d \<notin> set (map date T) \<Longrightarrow>
     ensure_today T d = T @ [\<lparr>date = d, count = 0\<rparr>]
     \<and> ensure_today (ensure_today T d) d = ensure_today T d"
  by (simp add: ensure_today_def)

theorem ensure_today_appends_once_witness:
  "''2024-06-02'' \<notin> set (map date [\<lparr>date = ''2024-06-01'', count = 4\<rparr>])
   \<and> ensure_today [\<lparr>date = ''2024-06-01'', count = 4\<rparr>] ''2024-06-02''
     = [\<lparr>date = ''2024-06-01'', count = 4\<rparr>, \<lparr>date = ''2024-06-02'', count = 0\<rparr>]
   \<and> ensure_today (ensure_today [\<lparr>date = ''2024-06-01'', count = 4\<rparr>] ''2024-06-02'') ''2024-06-02''
     = ensure_today [\<lparr>date = ''2024-06-01'', count = 4\<rparr>] ''2024-06-02''"
proof -
  have fresh: "''2024-06-02'' \<notin> set (map date [\<lparr>date = ''2024-06-01'', count = 4\<rparr>])"
    by simp
  note once = ensure_today_appends_once [OF fresh]
  from once have appended: "ensure_today [\<lparr>date = ''2024-06-01'', count = 4\<rparr>] ''2024-06-02''
     = [\<lparr>date = ''2024-06-01'', count = 4\<rparr>, \<lparr>date = ''2024-06-02'', count = 0\<rparr>]"
    by simp
  from once have again: "ensure_today (ensure_today [\<lparr>date = ''2024-06-01'', count = 4\<rparr>] ''2024-06-02'') ''2024-06-02''
     = ensure_today [\<lparr>date = ''2024-06-01'', count = 4\<rparr>] ''2024-06-02''"
    by (rule conjunct2)
  from fresh appended again show ?thesis
    by (intro conjI)
qed

text \<open>
  C4. \<open>remove_outreach\<close> on a valid index of the session's table. When the row's count is 0
  the call returns the state it was given with one more notice, the warning: the table, the
  session's count and the file are what they were, so nothing was saved and no count went
  below 0. When the count is positive (and the session has its \<open>today\<close> key, which
  \<open>init_data\<close> sets before any callback can run) the call returns, the row's count is one
  less, and the file holds the new table.
\<close>

theorem remove_outreach_spec:
  assumes "ss_data s = Some T" and "valid_index T i"
  shows "(count (T ! nat i) = 0 \<longrightarrow>
            remove_outreach i s =
              Inr (s\<lparr>shown := shown s @ [Warning ''Count is already 0. Can't remove more.'']\<rparr>))
       \<and> (0 < count (T ! nat i) \<longrightarrow> ss_today s \<noteq> None \<longrightarrow>
            (\<exists>s'. remove_outreach i s = Inr s'
                \<and> ss_data s' = Some (set_count T i (count (T ! nat i) - 1))
                \<and> count (set_count T i (count (T ! nat i) - 1) ! nat i) = count (T ! nat i) - 1
                \<and> data_file s' = Some (to_csv (set_count T i (count (T ! nat i) - 1)))
                \<and> shown s' = shown s))"
proof (intro conjI impI)
  assume "count (T ! nat i) = 0"
  with assms show "remove_outreach i s =
      Inr (s\<lparr>shown := shown s @ [Warning ''Count is already 0. Can't remove more.'']\<rparr>)"
    by (simp add: remove_outreach_nothing)
next
  assume pos: "0 < count (T ! nat i)" and "ss_today s \<noteq> None"
  then obtain t where t: "ss_today s = Some t"
    by blast
  from remove_outreach_positive [OF assms(1) t assms(2) pos] set_count_same [OF assms(2)]
  show "\<exists>s'. remove_outreach i s = Inr s'
      \<and> ss_data s' = Some (set_count T i (count (T ! nat i) - 1))
      \<and> count (set_count T i (count (T ! nat i) - 1) ! nat i) = count (T ! nat i) - 1
      \<and> data_file s' = Some (to_csv (set_count T i (count (T ! nat i) - 1)))
      \<and> shown s' = shown s"
    by auto
qed

theorem remove_outreach_spec_witness:
  "remove_outreach 0 demo_state =
     Inr (demo_state\<lparr>shown := [Warning ''Count is already 0. Can't remove more.'']\<rparr>)
   \<and> (\<exists>s'. remove_outreach 1 demo_state = Inr s'
         \<and> ss_data s' = Some [\<lparr>date = ''2024-06-01'', count = 0\<rparr>, \<lparr>date = ''2024-06-02'', count = 2\<rparr>]
         \<and> data_file s' = Some (to_csv [\<lparr>date = ''2024-06-01'', count = 0\<rparr>, \<lparr>date = ''2024-06-02'', count = 2\<rparr>]))"
proof -
  have d: "ss_data demo_state = Some demo_table"
    by (simp add: demo_state_def)
  have v0: "valid_index demo_table 0" and v1: "valid_index demo_table 1"
    by (simp_all add: valid_index_def demo_table_def)
  from remove_outreach_spec [OF d v0]
  have zero: "remove_outreach 0 demo_state =
     Inr (demo_state\<lparr>shown := [Warning ''Count is already 0. Can't remove more.'']\<rparr>)"
    by (simp add: demo_table_def demo_state_def)
  from remove_outreach_spec [OF d v1]
  have "\<exists>s'. remove_outreach 1 demo_state = Inr s'
         \<and> ss_data s' = Some [\<lparr>date = ''2024-06-01'', count = 0\<rparr>, \<lparr>date = ''2024-06-02'', count = 2\<rparr>]
         \<and> data_file s' = Some (to_csv [\<lparr>date = ''2024-06-01'', count = 0\<rparr>, \<lparr>date = ''2024-06-02'', count = 2\<rparr>])
         \<and> shown s' = []"
    by (simp add: demo_table_def demo_state_def set_count_def)
  then have one: "\<exists>s'. remove_outreach 1 demo_state = Inr s'
         \<and> ss_data s' = Some [\<lparr>date = ''2024-06-01'', count = 0\<rparr>, \<lparr>date = ''2024-06-02'', count = 2\<rparr>]
         \<and> data_file s' = Some (to_csv [\<lparr>date = ''2024-06-01'', count = 0\<rparr>, \<lparr>date = ''2024-06-02'', count = 2\<rparr>])"
    by blast
  from zero one show ?thesis
    by (rule conjI)
qed

text \<open>
  C7. Let \<open>T\<close> satisfy the invariant: no negative count, no date twice. Then
  \<open>ensure_today T d\<close> satisfies it and has a row of date \<open>d\<close>; whenever \<open>init_data\<close> returns on
  a session whose frame is \<open>T\<close> (held by the session, or loaded from the file), the session
  holds a table that satisfies it and has today's row; on a valid index \<open>remove_outreach\<close>
  returns with a table that satisfies it; and so does \<open>add_outreach\<close> on a row whose count
  is below \<open>2^63 - 1\<close>, the largest count an \<open>int64\<close> holds.
\<close>

theorem operations_preserve_table_inv:
  assumes "table_inv T"
  shows "table_inv (ensure_today T d)
     \<and> d \<in> set (map date (ensure_today T d))
     \<and> (\<forall>s'. session_frame s = Inr T \<and> init_data d s = Inr s' \<longrightarrow>
           (\<exists>T'. ss_data s' = Some T' \<and> table_inv T' \<and> d \<in> set (map date T')))
     \<and> (ss_data s = Some T \<and> ss_today s \<noteq> None \<and> valid_index T i
           \<and> count (T ! nat i) < 2 ^ 63 - 1 \<longrightarrow>
           (\<exists>s' T'. add_outreach i s = Inr s' \<and> ss_data s' = Some T' \<and> table_inv T'))
     \<and> (ss_data s = Some T \<and> ss_today s \<noteq> None \<and> valid_index T i \<longrightarrow>
           (\<exists>s' T'. remove_outreach i s = Inr s' \<and> ss_data s' = Some T' \<and> table_inv T'))"
proof (intro conjI allI impI)
  show "table_inv (ensure_today T d)"
    using assms by (rule ensure_today_inv)
  show "d \<in> set (map date (ensure_today T d))"
    by (rule ensure_today_has_row)
next
  fix s'
  assume "session_frame s = Inr T \<and> init_data d s = Inr s'"
  with init_data_result [of d s s'] have "ss_data s' = Some (ensure_today T d)"
    by auto
  with assms ensure_today_has_row [of d T]
  show "\<exists>T'. ss_data s' = Some T' \<and> table_inv T' \<and> d \<in> set (map date T')"
    by (simp add: ensure_today_inv)
next
  assume a: "ss_data s = Some T \<and> ss_today s \<noteq> None \<and> valid_index T i
      \<and> count (T ! nat i) < 2 ^ 63 - 1"
  then obtain t where t: "ss_today s = Some t"
    by blast
  from a have v: "valid_index T i" and dT: "ss_data s = Some T"
    and below: "count (T ! nat i) < 2 ^ 63 - 1"
    by simp_all
  from assms v have low: "0 \<le> count (T ! nat i)"
    by (simp add: table_inv_def list_all_length valid_index_def nat_less_iff)
  with below have "int64 (count (T ! nat i) + 1)"
    by (simp add: int64_def)
  then have "wrap64 (count (T ! nat i) + 1) = count (T ! nat i) + 1"
    by (rule wrap64_id)
  with low have "table_inv (set_count T i (wrap64 (count (T ! nat i) + 1)))"
    using assms by (simp add: set_count_inv)
  with add_outreach_valid [OF dT t v]
  show "\<exists>s' T'. add_outreach i s = Inr s' \<and> ss_data s' = Some T' \<and> table_inv T'"
    by blast
next
  assume a: "ss_data s = Some T \<and> ss_today s \<noteq> None \<and> valid_index T i"
  then obtain t where t: "ss_today s = Some t"
    by blast
  from a have v: "valid_index T i" and dT: "ss_data s = Some T"
    by simp_all
  have "0 < count (T ! nat i) \<or> count (T ! nat i) \<le> 0"
    by linarith
  then show "\<exists>s' T'. remove_outreach i s = Inr s' \<and> ss_data s' = Some T' \<and> table_inv T'"
  proof
    assume pos: "0 < count (T ! nat i)"
    then have "table_inv (set_count T i (count (T ! nat i) - 1))"
      using assms by (simp add: set_count_inv)
    with remove_outreach_positive [OF dT t v pos] show ?thesis
      by blast
  next
    assume "count (T ! nat i) \<le> 0"
    from remove_outreach_nothing [OF dT v this] dT assms show ?thesis
      by simp
  qed
qed

theorem operations_preserve_table_inv_witness:
  "table_inv demo_table
   \<and> table_inv (ensure_today demo_table ''2024-06-03'')
   \<and> ''2024-06-03'' \<in> set (map date (ensure_today demo_table ''2024-06-03''))
   \<and> (\<exists>s' T'. init_data ''2024-06-03'' demo_state = Inr s' \<and> ss_data s' = Some T' \<and> table_inv T'
          \<and> ''2024-06-03'' \<in> set (map date T'))
   \<and> (\<exists>s' T'. add_outreach 1 demo_state = Inr s' \<and> ss_data s' = Some T' \<and> table_inv T')
   \<and> (\<exists>s' T'. remove_outreach 1 demo_state = Inr s' \<and> ss_data s' = Some T' \<and> table_inv T')"
proof -
  have inv: "table_inv demo_table"
    by (simp add: table_inv_def demo_table_def)
  have d: "ss_data demo_state = Some demo_table" and t: "ss_today demo_state \<noteq> None"
    and f: "session_frame demo_state = Inr demo_table"
    by (simp_all add: demo_state_def session_frame_def)
  have v: "valid_index demo_table 1"
    by (simp add: valid_index_def demo_table_def)
  have below: "count (demo_table ! nat 1) < 2 ^ 63 - 1"
    by (simp add: demo_table_def)
  have run: "init_data ''2024-06-03'' demo_state =
      Inr (demo_state\<lparr>ss_data := Some (ensure_today demo_table ''2024-06-03'')\<rparr>)"
    by (simp add: init_data_def session_frame_def demo_state_def)
  note inst = operations_preserve_table_inv [OF inv, of "''2024-06-03''" demo_state 1]
  from inst have e: "table_inv (ensure_today demo_table ''2024-06-03'')"
    and r: "''2024-06-03'' \<in> set (map date (ensure_today demo_table ''2024-06-03''))"
    by blast+
  from inst f run
  have i: "\<exists>s' T'. init_data ''2024-06-03'' demo_state = Inr s' \<and> ss_data s' = Some T' \<and> table_inv T'
          \<and> ''2024-06-03'' \<in> set (map date T')"
    by blast
  from inst d t v below
  have a: "\<exists>s' T'. add_outreach 1 demo_state = Inr s' \<and> ss_data s' = Some T' \<and> table_inv T'"
    by blast
  from inst d t v
  have m: "\<exists>s' T'. remove_outreach 1 demo_state = Inr s' \<and> ss_data s' = Some T' \<and> table_inv T'"
    by blast
  from inv e r i a m show ?thesis
    by (intro conjI)
qed

text \<open>
  On a row whose count is \<open>2^63 - 1\<close> the invariant is lost: the table below satisfies it,
  \<open>add_outreach\<close> returns, and the count it leaves in the table, in the session and in the
  file is \<open>- 2^63\<close>.
\<close>

theorem add_outreach_overflow:
  "table_inv [\<lparr>date = ''2024-06-02'', count = 9223372036854775807\<rparr>]
   \<and> add_outreach 0
        \<lparr>ss_data = Some [\<lparr>date = ''2024-06-02'', count = 9223372036854775807\<rparr>],
         ss_today = Some ''2024-06-02'', ss_count = Some 9223372036854775807,
         data_file = None, shown = []\<rparr>
      = Inr \<lparr>ss_data = Some [\<lparr>date = ''2024-06-02'', count = - 9223372036854775808\<rparr>],
             ss_today = Some ''2024-06-02'', ss_count = Some (- 9223372036854775808),
             data_file = Some (to_csv [\<lparr>date = ''2024-06-02'', count = - 9223372036854775808\<rparr>]),
             shown = []\<rparr>
   \<and> \<not> table_inv [\<lparr>date = ''2024-06-02'', count = - 9223372036854775808\<rparr>]"
  by (simp add: table_inv_def add_outreach_def valid_index_def set_count_def wrap64_def
      save_data_def Let_def)

text \<open>
  C10. On a valid index \<open>i\<close> of the session's table \<open>T\<close>, \<open>add_outreach\<close> returns with a table
  \<open>T'\<close> of the same length, with the same dates in the same order, equal to \<open>T\<close> at every
  position but \<open>i\<close>, whose row \<open>i\<close> is the row of \<open>T\<close> with a new count and nothing else
  changed. The new count is the old one plus 1 computed in 64 bits: an integer in the range
  of \<open>int64\<close> that differs from the old count plus 1 by a multiple of \<open>2^64\<close>. When the
  count at \<open>i\<close> is positive, \<open>remove_outreach\<close> does the same with the count one lower.
\<close>

theorem outreach_frame:
  assumes "ss_data s = Some T" and "ss_today s = Some t" and "valid_index T i"
  shows "(\<exists>s' T'. add_outreach i s = Inr s' \<and> ss_data s' = Some T'
            \<and> length T' = length T \<and> map date T' = map date T
            \<and> (\<forall>j. j < length T \<and> j \<noteq> nat i \<longrightarrow> T' ! j = T ! j)
            \<and> T' ! nat i = (T ! nat i)\<lparr>count := count (T' ! nat i)\<rparr>
            \<and> - (2 ^ 63) \<le> count (T' ! nat i) \<and> count (T' ! nat i) < 2 ^ 63
            \<and> (count (T' ! nat i) - (count (T ! nat i) + 1)) mod 2 ^ 64 = 0)
       \<and> (0 < count (T ! nat i) \<longrightarrow>
           (\<exists>s' T'. remove_outreach i s = Inr s' \<and> ss_data s' = Some T'
            \<and> length T' = length T \<and> map date T' = map date T
            \<and> (\<forall>j. j < length T \<and> j \<noteq> nat i \<longrightarrow> T' ! j = T ! j)
            \<and> T' ! nat i = (T ! nat i)\<lparr>count := count (T ! nat i) - 1\<rparr>))"
proof (intro conjI impI)
  have frame: "length (set_count T i v) = length T \<and> map date (set_count T i v) = map date T
      \<and> (\<forall>j. j < length T \<and> j \<noteq> nat i \<longrightarrow> set_count T i v ! j = T ! j)
      \<and> set_count T i v ! nat i = (T ! nat i)\<lparr>count := v\<rparr>" for v
    using assms(3)
    by (simp add: set_count_length set_count_dates set_count_other set_count_same)
  define T' where "T' = set_count T i (wrap64 (count (T ! nat i) + 1))"
  from add_outreach_valid [OF assms] obtain s'
    where returned: "add_outreach i s = Inr s'" and held: "ss_data s' = Some T'"
    unfolding T'_def by blast
  from frame [of "wrap64 (count (T ! nat i) + 1)"]
  have len: "length T' = length T" and dates: "map date T' = map date T"
    and others: "\<forall>j. j < length T \<and> j \<noteq> nat i \<longrightarrow> T' ! j = T ! j"
    and cell: "T' ! nat i = (T ! nat i)\<lparr>count := wrap64 (count (T ! nat i) + 1)\<rparr>"
    unfolding T'_def by simp_all
  from cell have new: "count (T' ! nat i) = wrap64 (count (T ! nat i) + 1)"
    by simp
  from cell have only_count: "T' ! nat i = (T ! nat i)\<lparr>count := count (T' ! nat i)\<rparr>"
    by simp
  from wrap64_int64 [of "count (T ! nat i) + 1"]
  have lower: "- (2 ^ 63) \<le> count (T' ! nat i)" and upper: "count (T' ! nat i) < 2 ^ 63"
    by (simp_all add: new int64_def)
  have congruent: "(count (T' ! nat i) - (count (T ! nat i) + 1)) mod 2 ^ 64 = 0"
    unfolding new by (rule wrap64_congruent)
  show "\<exists>s' T'. add_outreach i s = Inr s' \<and> ss_data s' = Some T'
            \<and> length T' = length T \<and> map date T' = map date T
            \<and> (\<forall>j. j < length T \<and> j \<noteq> nat i \<longrightarrow> T' ! j = T ! j)
            \<and> T' ! nat i = (T ! nat i)\<lparr>count := count (T' ! nat i)\<rparr>
            \<and> - (2 ^ 63) \<le> count (T' ! nat i) \<and> count (T' ! nat i) < 2 ^ 63
            \<and> (count (T' ! nat i) - (count (T ! nat i) + 1)) mod 2 ^ 64 = 0"
    by (intro exI [of _ s'] exI [of _ T'] conjI returned held len dates others only_count
        lower upper congruent)
  assume pos: "0 < count (T ! nat i)"
  from remove_outreach_positive [OF assms pos] frame [of "count (T ! nat i) - 1"]
  show "\<exists>s' T'. remove_outreach i s = Inr s' \<and> ss_data s' = Some T'
            \<and> length T' = length T \<and> map date T' = map date T
            \<and> (\<forall>j. j < length T \<and> j \<noteq> nat i \<longrightarrow> T' ! j = T ! j)
            \<and> T' ! nat i = (T ! nat i)\<lparr>count := count (T ! nat i) - 1\<rparr>"
    by blast
qed

theorem outreach_frame_witness:
  "(\<exists>s'. add_outreach 1 demo_state = Inr s'
      \<and> ss_data s' = Some [\<lparr>date = ''2024-06-01'', count = 0\<rparr>, \<lparr>date = ''2024-06-02'', count = 4\<rparr>])
   \<and> (\<exists>s'. remove_outreach 1 demo_state = Inr s'
      \<and> ss_data s' = Some [\<lparr>date = ''2024-06-01'', count = 0\<rparr>, \<lparr>date = ''2024-06-02'', count = 2\<rparr>])"
proof -
  have d: "ss_data demo_state = Some demo_table" and t: "ss_today demo_state = Some ''2024-06-02''"
    by (simp_all add: demo_state_def)
  have v: "valid_index demo_table 1"
    by (simp add: valid_index_def demo_table_def)
  have pos: "0 < count (demo_table ! nat 1)"
    by (simp add: demo_table_def)
  have two: "length T' = length demo_table
      \<Longrightarrow> (\<forall>j. j < length demo_table \<and> j \<noteq> nat 1 \<longrightarrow> T' ! j = demo_table ! j)
      \<Longrightarrow> T' ! nat 1 = r \<Longrightarrow> T' = [\<lparr>date = ''2024-06-01'', count = 0\<rparr>, r]" for T' r
    by (auto simp: demo_table_def list_eq_iff_nth_eq less_Suc_eq numeral_2_eq_2)
  note inst = outreach_frame [OF d t v]
  from inst obtain s' T' where a: "add_outreach 1 demo_state = Inr s'" "ss_data s' = Some T'"
      "length T' = length demo_table"
      "\<forall>j. j < length demo_table \<and> j \<noteq> nat 1 \<longrightarrow> T' ! j = demo_table ! j"
      "T' ! nat 1 = (demo_table ! nat 1)\<lparr>count := count (T' ! nat 1)\<rparr>"
      "- (2 ^ 63) \<le> count (T' ! nat 1)" "count (T' ! nat 1) < 2 ^ 63"
      "(count (T' ! nat 1) - (count (demo_table ! nat 1) + 1)) mod 2 ^ 64 = 0"
    by (elim conjE exE)
  from a(6) a(7) have "int64 (count (T' ! nat 1))"
    by (simp add: int64_def)
  moreover have "int64 4"
    by (simp add: int64_def)
  moreover from a(8) have "(count (T' ! nat 1) - 4) mod 2 ^ 64 = 0"
    by (simp add: demo_table_def)
  ultimately have "count (T' ! nat 1) = 4"
    by (rule congruent_int64_unique)
  with a(5) have "T' ! nat 1 = (demo_table ! nat 1)\<lparr>count := 4\<rparr>"
    by simp
  from two [OF a(3) a(4) this] a(1) a(2)
  have inc: "\<exists>s'. add_outreach 1 demo_state = Inr s'
      \<and> ss_data s' = Some [\<lparr>date = ''2024-06-01'', count = 0\<rparr>, \<lparr>date = ''2024-06-02'', count = 4\<rparr>]"
    by (simp add: demo_table_def)
  from inst pos obtain s'' T'' where b: "remove_outreach 1 demo_state = Inr s''"
      "ss_data s'' = Some T''" "length T'' = length demo_table"
      "\<forall>j. j < length demo_table \<and> j \<noteq> nat 1 \<longrightarrow> T'' ! j = demo_table ! j"
      "T'' ! nat 1 = (demo_table ! nat 1)\<lparr>count := count (demo_table ! nat 1) - 1\<rparr>"
    by blast
  from two [OF b(3) b(4) b(5)] b(1) b(2)
  have dec: "\<exists>s'. remove_outreach 1 demo_state = Inr s'
      \<and> ss_data s' = Some [\<lparr>date = ''2024-06-01'', count = 0\<rparr>, \<lparr>date = ''2024-06-02'', count = 2\<rparr>]"
    by (simp add: demo_table_def)
  from inc dec show ?thesis
    by (rule conjI)
qed

section \<open>Properties of loading\<close>

text \<open>
  C8. With no file, \<open>read_csv\<close> raises \<open>FileNotFoundError\<close>; with a file of no bytes it raises
  \<open>EmptyDataError\<close>. \<open>load_data\<close> catches both and returns the empty table, so in neither case
  does the caller see an error. A file that holds the header line alone, as \<open>save_data\<close>
  writes it for a table of no rows, is read as the empty table too.
\<close>

theorem load_data_absent_or_empty:
  "read_csv None = Inl FileNotFoundError \<and> load_data None = Inr []
   \<and> read_csv (Some []) = Inl EmptyDataError \<and> load_data (Some []) = Inr []
   \<and> load_data (Some (to_csv [])) = Inr []"
  by (simp add: load_data_def read_csv_def to_csv_def csv_lines_def)

section \<open>Properties of the data file\<close>

subsection \<open>Printing and reading a decimal number\<close>

lemma small_cases: "d < 10 \<Longrightarrow> d \<in> {0, 1, 2, 3, 4, 5, 6, 7, 8, 9::nat}"
  by auto

lemma is_digit_digit_char: "d < 10 \<Longrightarrow> is_digit (digit_char d)"
  by (drule small_cases) (auto simp: is_digit_def digit_char_def)

lemma digit_val_digit_char: "d < 10 \<Longrightarrow> digit_val (digit_char d) = d"
  by (drule small_cases) (auto simp: digit_val_def digit_char_def)

lemma digits_of_all_digits: "list_all is_digit (digits_of n)"
  by (induction n rule: digits_of.induct) (subst digits_of.simps, simp add: is_digit_digit_char)

lemma digits_of_nonempty: "digits_of n \<noteq> []"
  by (subst digits_of.simps) simp

lemma nat_of_digits_snoc: "nat_of_digits (ds @ [c]) = 10 * nat_of_digits ds + digit_val c"
  by (simp add: nat_of_digits_def)

lemma nat_of_digits_digits_of: "nat_of_digits (digits_of n) = n"
proof (induction n rule: digits_of.induct)
  case (1 n)
  have "n < 10 \<or> \<not> n < 10"
    by simp
  then show ?case
  proof
    assume "n < 10"
    then show ?thesis
      by (subst digits_of.simps) (simp add: nat_of_digits_def digit_val_digit_char)
  next
    assume big: "\<not> n < 10"
    with 1 have "nat_of_digits (digits_of (n div 10)) = n div 10"
      by simp
    with big show ?thesis
      by (subst digits_of.simps) (simp add: nat_of_digits_snoc digit_val_digit_char)
  qed
qed

lemma is_digit_not_minus: "is_digit c \<Longrightarrow> c \<noteq> CHR ''-''"
  by (auto simp: is_digit_def)

lemma digits_of_head: "\<exists>c ds. digits_of n = c # ds \<and> is_digit c"
proof -
  from digits_of_nonempty [of n] obtain c ds where "digits_of n = c # ds"
    by (auto simp: neq_Nil_conv)
  with digits_of_all_digits [of n] show ?thesis
    by simp
qed

lemma parse_int_str_int: "parse_int (str_int i) = Some i"
proof -
  have "i < 0 \<or> 0 \<le> i"
    by linarith
  then show ?thesis
  proof
    assume "i < 0"
    then show ?thesis
      by (simp add: parse_int_def str_int_def digits_of_all_digits digits_of_nonempty
          nat_of_digits_digits_of)
  next
    assume nonneg: "0 \<le> i"
    from digits_of_head [of "nat i"] obtain c ds
      where "digits_of (nat i) = c # ds" "is_digit c" by blast
    with nonneg digits_of_all_digits [of "nat i"] nat_of_digits_digits_of [of "nat i"] show ?thesis
      by (auto simp: parse_int_def str_int_def is_digit_not_minus)
  qed
qed


subsection \<open>Lines and fields\<close>

lemma split_on_nonempty: "split_on sep xs \<noteq> []"
  by (induction xs) (simp_all split: list.split)

lemma split_on_no_sep: "sep \<notin> set xs \<Longrightarrow> split_on sep xs = [xs]"
  by (induction xs) auto

lemma split_on_append_sep:
  "sep \<notin> set a \<Longrightarrow> split_on sep (a @ sep # rest) = a # split_on sep rest"
  by (induction a) auto

lemma is_digit_plain: "is_digit c \<Longrightarrow> c \<noteq> CHR '','' \<and> c \<noteq> CHR 0x0A"
  by (auto simp: is_digit_def)

lemma str_int_chars: "c \<in> set (str_int i) \<Longrightarrow> is_digit c \<or> c = CHR ''-''"
  using digits_of_all_digits [of "nat i"] digits_of_all_digits [of "nat (- i)"]
  by (auto simp: str_int_def list_all_iff split: if_splits)

lemma iso_shaped_chars: "iso_shaped d \<Longrightarrow> c \<in> set d \<Longrightarrow> is_digit c \<or> c = CHR ''-''"
  by (auto simp: iso_shaped_def split: list.splits)

lemma plain_str_int: "plain (str_int i)"
  using str_int_chars [of _ i] is_digit_plain by (auto simp: plain_def)

lemma plain_iso_shaped: "iso_shaped d \<Longrightarrow> plain d"
  using iso_shaped_chars [of d] is_digit_plain by (auto simp: plain_def)

lemma csv_line_fields: "csv_line r = csv_fields r @ [CHR 0x0A]"
  by (simp add: csv_line_def csv_fields_def)

lemma parse_row_fields:
  assumes "iso_shaped (date r)" and "int64 (count r)"
  shows "parse_row (csv_fields r) = Inr r"
proof -
  from assms(1) have "CHR '','' \<notin> set (date r)"
    using plain_iso_shaped by (simp add: plain_def)
  then have "split_on CHR '','' (date r @ CHR '','' # str_int (count r))
      = date r # split_on CHR '','' (str_int (count r))"
    by (rule split_on_append_sep)
  moreover have "split_on CHR '','' (str_int (count r)) = [str_int (count r)]"
    using plain_str_int [of "count r"] by (simp add: plain_def split_on_no_sep)
  ultimately show ?thesis
    using assms by (simp add: parse_row_def csv_fields_def parse_int_str_int)
qed

lemma split_lines_body:
  assumes "\<And>r. r \<in> set df \<Longrightarrow> CHR 0x0A \<notin> set (date r)"
  shows "split_on (CHR 0x0A) (concat (map csv_line df)) = map csv_fields df @ [[]]"
  using assms
proof (induction df)
  case Nil
  show ?case by simp
next
  case (Cons r df)
  have no_nl: "CHR 0x0A \<notin> set (csv_fields r)"
    using Cons.prems [of r] plain_str_int [of "count r"] by (simp add: plain_def csv_fields_def)
  have "concat (map csv_line (r # df)) = csv_fields r @ CHR 0x0A # concat (map csv_line df)"
    by (simp add: csv_line_fields)
  also have "split_on (CHR 0x0A) \<dots> = csv_fields r # split_on (CHR 0x0A) (concat (map csv_line df))"
    using no_nl by (rule split_on_append_sep)
  also have "\<dots> = map csv_fields (r # df) @ [[]]"
    using Cons by simp
  finally show ?case .
qed

lemma csv_lines_to_csv:
  assumes "well_formed df"
  shows "csv_lines (to_csv df) = ''date,count'' # map csv_fields df"
proof -
  have nl: "CHR 0x0A \<notin> set (date r)" if "r \<in> set df" for r
    using that assms plain_iso_shaped [of "date r"] by (simp add: well_formed_def list_all_iff plain_def)
  have "CHR 0x0A \<notin> set ''date,count''"
    by simp
  then have "split_on (CHR 0x0A) (''date,count'' @ CHR 0x0A # concat (map csv_line df))
      = ''date,count'' # split_on (CHR 0x0A) (concat (map csv_line df))"
    by (rule split_on_append_sep)
  with split_lines_body [of df] nl
  have "split_on (CHR 0x0A) (to_csv df) = (''date,count'' # map csv_fields df) @ [[]]"
    by (simp add: to_csv_def)
  then show ?thesis
    by (simp add: csv_lines_def del: append_Cons)
qed

lemma parse_rows_fields: "well_formed df \<Longrightarrow> parse_rows (map csv_fields df) = Inr df"
  by (induction df) (simp_all add: well_formed_def parse_row_fields)

lemma read_csv_to_csv: "well_formed df \<Longrightarrow> read_csv (Some (to_csv df)) = Inr df"
  by (simp add: read_csv_def csv_lines_to_csv parse_rows_fields) (simp add: to_csv_def)

text \<open>
  C6. For a well-formed table \<open>T\<close> (every date of the shape \<open>dddd-dd-dd\<close> of \<open>isoformat\<close>,
  every count an integer of 64 bits), \<open>save_data\<close> writes \<open>to_csv T\<close> to the file, and
  \<open>load_data\<close> on the file so written returns \<open>T\<close>: the same rows in the same order, each
  with its date as a string and its count as an integer.
\<close>

theorem load_after_save:
  "well_formed T \<Longrightarrow>
     data_file (save_data T s) = Some (to_csv T) \<and> load_data (data_file (save_data T s)) = Inr T"
  by (simp add: save_data_def load_data_def read_csv_to_csv)


theorem load_after_save_witness:
  "well_formed [\<lparr>date = ''2024-06-01'', count = 12\<rparr>, \<lparr>date = ''2024-06-02'', count = - 3\<rparr>]
   \<and> data_file (save_data [\<lparr>date = ''2024-06-01'', count = 12\<rparr>, \<lparr>date = ''2024-06-02'', count = - 3\<rparr>] demo_state)
       = Some (''date,count'' @ [CHR 0x0A] @ ''2024-06-01,12'' @ [CHR 0x0A] @ ''2024-06-02,-3'' @ [CHR 0x0A])
   \<and> load_data (data_file (save_data [\<lparr>date = ''2024-06-01'', count = 12\<rparr>, \<lparr>date = ''2024-06-02'', count = - 3\<rparr>] demo_state))
       = Inr [\<lparr>date = ''2024-06-01'', count = 12\<rparr>, \<lparr>date = ''2024-06-02'', count = - 3\<rparr>]"
proof -
  have wf: "well_formed [\<lparr>date = ''2024-06-01'', count = 12\<rparr>, \<lparr>date = ''2024-06-02'', count = - 3\<rparr>]"
    by (simp add: well_formed_def iso_shaped_def is_digit_def int64_def)
  have content: "to_csv [\<lparr>date = ''2024-06-01'', count = 12\<rparr>, \<lparr>date = ''2024-06-02'', count = - 3\<rparr>]
      = ''date,count'' @ [CHR 0x0A] @ ''2024-06-01,12'' @ [CHR 0x0A] @ ''2024-06-02,-3'' @ [CHR 0x0A]"
    by (simp add: to_csv_def csv_line_def str_int_def digits_of.simps digit_char_def)
  note inst = load_after_save [OF wf, of demo_state]
  from inst content have written: "data_file (save_data [\<lparr>date = ''2024-06-01'', count = 12\<rparr>, \<lparr>date = ''2024-06-02'', count = - 3\<rparr>] demo_state)
       = Some (''date,count'' @ [CHR 0x0A] @ ''2024-06-01,12'' @ [CHR 0x0A] @ ''2024-06-02,-3'' @ [CHR 0x0A])"
    by simp
  from inst have reread: "load_data (data_file (save_data [\<lparr>date = ''2024-06-01'', count = 12\<rparr>, \<lparr>date = ''2024-06-02'', count = - 3\<rparr>] demo_state))
       = Inr [\<lparr>date = ''2024-06-01'', count = 12\<rparr>, \<lparr>date = ''2024-06-02'', count = - 3\<rparr>]"
    by (rule conjunct2)
  from wf written reread show ?thesis
    by (intro conjI)
qed

section \<open>Properties of the month calendar\<close>

subsection \<open>Weeks and days\<close>


















subsection \<open>Cells\<close>





subsection \<open>The key of a day\<close>

lemma digits_of_small: "n < 10 \<Longrightarrow> digits_of n = [digit_char n]"
  by (subst digits_of.simps) simp

lemma digits_of_big:
  "\<not> n < 10 \<Longrightarrow> digits_of n = digits_of (n div 10) @ [digit_char (n mod 10)]"
  by (subst digits_of.simps) simp



lemma isoformat_example: "isoformat \<lparr>d_year = 2024, d_month = 6, d_day = 1\<rparr> = ''2024-06-01''"
  by (simp add: isoformat_def fmt_04d_def fmt_02d_def str_int_def digits_of_small digits_of_big digit_char_def)


subsection \<open>The page\<close>









subsection \<open>June 2024\<close>










end
